theory Spec2Isabelle
  imports Main "HOL-Library.Sublist"
begin

section \<open>Python values, errors and library functions used by the module\<close>

text \<open>
  The exceptions that the module itself raises (\<open>ValueError\<close> in \<open>get_callback_url\<close>),
  that attribute and dictionary look-ups raise (\<open>AttributeError\<close>, \<open>KeyError\<close>), and the
  errors a sub-authenticator's own \<open>authenticate\<close> may raise, which the module passes on.
\<close>

datatype py_error = ValueError | AttributeError | KeyError | ProviderError string

text \<open>Truth value of a Python string: the empty string is falsy.\<close>

definition truthy :: "string \<Rightarrow> bool" where
  "truthy s = (s \<noteq> [])"

text \<open>
  \<open>str.replace(old, new)\<close>: every non-overlapping occurrence of \<open>old\<close>, found from left
  to right, is replaced by \<open>new\<close>; with an empty \<open>old\<close>, \<open>new\<close> is inserted before every
  character and at the end.
\<close>

function str_replace :: "string \<Rightarrow> string \<Rightarrow> string \<Rightarrow> string" where
  "str_replace old new [] = (if old = [] then new else [])"
| "str_replace old new (c # cs) =
     (if old = [] then new @ c # str_replace old new cs
      else if prefix old (c # cs)
           then new @ str_replace old new (drop (length old) (c # cs))
           else c # str_replace old new cs)"
  by pat_completeness auto
termination
  by (relation "measure (\<lambda>(old, new, s). length s)") (auto simp: neq_Nil_conv)

text \<open>\<open>str.join\<close>: the segments with the separator between neighbours.\<close>

fun str_join :: "string \<Rightarrow> string list \<Rightarrow> string" where
  "str_join sep [] = []"
| "str_join sep [x] = x"
| "str_join sep (x # y # ys) = x @ sep @ str_join sep (y # ys)"

subsection \<open>urllib.parse.urlsplit\<close>

record split_result =
  scheme :: string
  netloc :: string
  path :: string
  query :: string
  fragment :: string

definition ascii_alpha :: "char \<Rightarrow> bool" where
  "ascii_alpha c = (c \<in> set ''abcdefghijklmnopqrstuvwxyzABCDEFGHIJKLMNOPQRSTUVWXYZ'')"

definition ascii_digit :: "char \<Rightarrow> bool" where
  "ascii_digit c = (c \<in> set ''0123456789'')"

definition scheme_char :: "char \<Rightarrow> bool" where
  "scheme_char c = (ascii_alpha c \<or> ascii_digit c \<or> c \<in> set ''+-.'')"

definition ascii_lower :: "char \<Rightarrow> char" where
  "ascii_lower c =
     (if c \<in> set ''ABCDEFGHIJKLMNOPQRSTUVWXYZ'' then char_of (of_char c + (32::nat)) else c)"

text \<open>\<open>s.split(c, 1)\<close> for a string that contains \<open>c\<close>: the text before and after its first occurrence.\<close>

definition split_first :: "char \<Rightarrow> string \<Rightarrow> string \<times> string" where
  "split_first c s = (takeWhile (\<lambda>x. x \<noteq> c) s, drop 1 (dropWhile (\<lambda>x. x \<noteq> c) s))"

text \<open>
  \<open>_splitnetloc(url, 2)\<close> on a string that starts with \<open>//\<close>: the network location runs
  up to the first of \<open>/\<close>, \<open>?\<close> and \<open>#\<close>.
\<close>

definition splitnetloc :: "string \<Rightarrow> string \<times> string" where
  "splitnetloc url =
     (let rest = drop 2 url
      in (takeWhile (\<lambda>x. x \<notin> set ''/?#'') rest, dropWhile (\<lambda>x. x \<notin> set ''/?#'') rest))"

text \<open>
  \<open>urlsplit(url)\<close> as CPython's \<open>urllib.parse\<close> computes it (the module is not part of this
  repository): leading C0 control characters and spaces are stripped, tab, line feed and
  carriage return are removed, a leading \<open>scheme:\<close> is split off, then a network location
  after \<open>//\<close> (with \<open>ValueError\<close> for an unbalanced square bracket), then the fragment
  after the first \<open>#\<close> and the query after the first \<open>?\<close>. Characters are bytes. The further
  \<open>ValueError\<close>s that some CPython releases raise for a network location with non-ASCII
  characters or a malformed bracketed host are not modelled; they only concern request
  targets that start with \<open>//\<close> or with a scheme.
\<close>

definition split_scheme :: "string \<Rightarrow> string \<times> string" where
  "split_scheme url =
     (let pre = takeWhile (\<lambda>x. x \<noteq> CHR '':'') url
      in if CHR '':'' \<in> set url \<and> pre \<noteq> [] \<and> ascii_alpha (hd pre) \<and> list_all scheme_char pre
         then (map ascii_lower pre, drop (Suc (length pre)) url)
         else ([], url))"

definition urlsplit :: "string \<Rightarrow> py_error + split_result" where
  "urlsplit url0 =
     (let url1 = dropWhile (\<lambda>c. of_char c \<le> (32::nat)) url0;
          url2 = filter (\<lambda>c. c \<notin> {CHR 0x09, CHR 0x0A, CHR 0x0D}) url1;
          (sch, url3) = split_scheme url2;
          (nl, url4) = (if take 2 url3 = ''//'' then splitnetloc url3 else ([], url3))
      in if (CHR ''['' \<in> set nl \<and> CHR '']'' \<notin> set nl) \<or> (CHR '']'' \<in> set nl \<and> CHR ''['' \<notin> set nl)
         then Inl ValueError
         else
           let (url5, frag) = (if CHR ''#'' \<in> set url4 then split_first (CHR ''#'') url4 else (url4, []));
               (url6, qry) = (if CHR ''?'' \<in> set url5 then split_first (CHR ''?'') url5 else (url5, []))
           in Inr \<lparr>scheme = sch, netloc = nl, path = url6, query = qry, fragment = frag\<rparr>)"

subsection \<open>tornado.escape.url_escape and tornado.httputil.url_concat\<close>

definition always_safe :: "char \<Rightarrow> bool" where
  "always_safe c = (ascii_alpha c \<or> ascii_digit c \<or> c \<in> set ''_.-~'')"

definition hex_digit :: "nat \<Rightarrow> char" where
  "hex_digit n = ''0123456789ABCDEF'' ! (n mod 16)"

definition quote_byte :: "char \<Rightarrow> string" where
  "quote_byte c =
     (if c = CHR '' '' then ''+''
      else if always_safe c then [c]
      else [CHR ''%'', hex_digit (of_char c div 16), hex_digit (of_char c mod 16)])"

text \<open>
  \<open>url_escape(value)\<close> is \<open>urllib.parse.quote_plus\<close> of the UTF-8 bytes of the value: a space
  becomes \<open>+\<close>, letters, digits and \<open>_.-~\<close> stay, every other byte becomes \<open>%XX\<close>.
\<close>

definition url_escape :: "string \<Rightarrow> string" where
  "url_escape s = concat (map quote_byte s)"

definition urlencode :: "(string \<times> string) list \<Rightarrow> string" where
  "urlencode args = str_join ''&'' (map (\<lambda>(k, v). url_escape k @ ''='' @ url_escape v) args)"

text \<open>
  \<open>url_concat(url, args)\<close> of tornado (not part of this repository): the encoded arguments
  are appended after \<open>?\<close>, or after \<open>&\<close> when the URL already has a query. The model is the
  one of tornado up to 4.4; later releases rebuild the URL from its parsed components and
  agree with it on a URL that carries no query, parameters or fragment of its own.
\<close>

definition url_concat :: "string \<Rightarrow> (string \<times> string) list \<Rightarrow> string" where
  "url_concat url args =
     (if args = [] then url
      else (if url \<noteq> [] \<and> last url \<in> set ''?&'' then url
            else url @ (if CHR ''?'' \<in> set url then ''&'' else ''?'')) @ urlencode args)"

section \<open>Requests and handlers\<close>

text \<open>
  The part of tornado's \<open>HTTPServerRequest\<close> the module reads. \<open>arguments\<close> gives, for an
  argument name, the value \<open>RequestHandler.get_argument\<close> finds for it (the last submitted
  value, stripped), and \<open>None\<close> when the request does not carry the argument.
\<close>

record http_request =
  protocol :: string
  host :: string
  uri :: string
  arguments :: "string \<rightharpoonup> string"

text \<open>\<open>get_argument(name, default)\<close> with a string default, and with the default \<open>None\<close>.\<close>

definition get_argument :: "http_request \<Rightarrow> string \<Rightarrow> string \<Rightarrow> string" where
  "get_argument req name dflt = (case arguments req name of None \<Rightarrow> dflt | Some v \<Rightarrow> v)"

definition get_argument_none :: "http_request \<Rightarrow> string \<Rightarrow> string option" where
  "get_argument_none req name = arguments req name"

text \<open>Truth value of \<open>get_argument(name, None)\<close>: \<open>None\<close> and the empty string are falsy.\<close>

definition truthy_opt :: "string option \<Rightarrow> bool" where
  "truthy_opt v = (case v of None \<Rightarrow> False | Some s \<Rightarrow> truthy s)"

text \<open>
  The handler classes the module names. A handler object carries the classes it is an
  instance of (its own class and all base classes); \<open>isinstance\<close> looks the class up there.
\<close>

datatype handler_class =
    MultiOAuthLoginHandler
  | OAuthLoginHandler
  | OAuthCallbackHandler
  | GoogleLoginHandler
  | GoogleOAuthHandler
  | GitHubLoginHandler
  | GitLabLoginHandler
  | OtherHandler string

record handler =
  mro :: "handler_class list"
  request :: http_request

definition isinstance :: "handler \<Rightarrow> handler_class \<Rightarrow> bool" where
  "isinstance h c = (c \<in> set (mro h))"

section \<open>Sub-authenticators and the MultiOAuthenticator\<close>

type_synonym identity = string
type_synonym form_data = "(string \<times> string) list"

text \<open>
  A sub-authenticator (an \<open>OAuthenticator\<close> of the oauthenticator package, outside this
  repository) as far as the module uses it: its credentials, its configured callback URL
  (the empty string when none is configured), the route list its \<open>get_handlers\<close> returns
  and its \<open>authenticate\<close>.
\<close>

record authenticator =
  client_id :: string
  client_secret :: string
  scope :: "string list"
  oauth_callback_url :: string
  sub_handlers :: "(string \<times> handler_class) list"
  sub_authenticate :: "handler \<Rightarrow> form_data \<Rightarrow> py_error + identity option"

text \<open>
  \<open>self.config\<close>: a traitlets \<open>Config\<close>, read as \<open>self.config.<section>.<attribute>\<close>. A
  section or an attribute that is not there makes the attribute access raise
  \<open>AttributeError\<close>.
\<close>

type_synonym config = "string \<rightharpoonup> (string \<rightharpoonup> string)"

definition config_lookup :: "config \<Rightarrow> string \<Rightarrow> string \<Rightarrow> py_error + string" where
  "config_lookup c section attr =
     (case c section of
        None \<Rightarrow> Inl AttributeError
      | Some s \<Rightarrow> (case s attr of None \<Rightarrow> Inl AttributeError | Some v \<Rightarrow> Inr v))"

text \<open>
  The \<open>MultiOAuthenticator\<close> object. \<open>priv_client_id\<close>, \<open>priv_client_secret\<close> and
  \<open>priv_scope\<close> are the private attributes \<open>__client_id\<close>, \<open>__client_secret\<close> and \<open>__scope\<close>.
\<close>

record multi_oauthenticator =
  enable_google :: bool
  enable_github :: bool
  enable_gitlab :: bool
  google_authenticator :: authenticator
  github_authenticator :: authenticator
  gitlab_authenticator :: authenticator
  config :: config
  priv_client_id :: "string option"
  priv_client_secret :: "string option"
  priv_scope :: "string list option"

text \<open>\<open>__init__\<close>: the configured traits, and the three private attributes set to \<open>None\<close>.\<close>

definition init ::
  "bool \<Rightarrow> bool \<Rightarrow> bool \<Rightarrow> authenticator \<Rightarrow> authenticator \<Rightarrow> authenticator \<Rightarrow> config
    \<Rightarrow> multi_oauthenticator" where
  "init eg eh el ga ha la c =
     \<lparr>enable_google = eg, enable_github = eh, enable_gitlab = el,
      google_authenticator = ga, github_authenticator = ha, gitlab_authenticator = la,
      config = c,
      priv_client_id = None, priv_client_secret = None, priv_scope = None\<rparr>"

text \<open>The read-only properties \<open>client_id\<close>, \<open>client_secret\<close> and \<open>scope\<close>.\<close>

definition prop_client_id :: "multi_oauthenticator \<Rightarrow> string option" where
  "prop_client_id self = priv_client_id self"

definition prop_client_secret :: "multi_oauthenticator \<Rightarrow> string option" where
  "prop_client_secret self = priv_client_secret self"

definition prop_scope :: "multi_oauthenticator \<Rightarrow> string list option" where
  "prop_scope self = priv_scope self"

definition set_oauth_tokens :: "multi_oauthenticator \<Rightarrow> authenticator \<Rightarrow> multi_oauthenticator" where
  "set_oauth_tokens self subauth =
     self\<lparr>priv_client_id := Some (client_id subauth),
          priv_client_secret := Some (client_secret subauth),
          priv_scope := Some (scope subauth)\<rparr>"

subsection \<open>get_callback_url\<close>

text \<open>The last four lines of \<open>get_callback_url\<close>: the URL made from the handler's request.\<close>

definition synthesize_callback_url :: "handler \<Rightarrow> py_error + string" where
  "synthesize_callback_url h =
     (case urlsplit (uri (request h)) of
        Inl e \<Rightarrow> Inl e
      | Inr parts \<Rightarrow>
          Inr (protocol (request h) @ ''://'' @ host (request h)
               @ str_replace ''/login'' ''/callback'' (path parts)))"

text \<open>
  The three \<open>isinstance\<close> blocks, last to first. Each returns the result (an error or the
  URL) and the object after the assignments made on the way: \<open>set_oauth_tokens\<close> has run
  before a later line raises.
\<close>

definition gitlab_block ::
  "multi_oauthenticator \<Rightarrow> handler \<Rightarrow> (py_error + string) \<times> multi_oauthenticator" where
  "gitlab_block self h =
     (if isinstance h GitLabLoginHandler
      then (let self' = set_oauth_tokens self (gitlab_authenticator self)
            in case config_lookup (config self') ''gitlab_authenticator'' ''oauth_callback_url'' of
                 Inl e \<Rightarrow> (Inl e, self')
               | Inr u \<Rightarrow> if truthy u then (Inr u, self')
                          else (synthesize_callback_url h, self'))
      else (synthesize_callback_url h, self))"

definition github_block ::
  "multi_oauthenticator \<Rightarrow> handler \<Rightarrow> (py_error + string) \<times> multi_oauthenticator" where
  "github_block self h =
     (if isinstance h GitHubLoginHandler
      then (let self' = set_oauth_tokens self (github_authenticator self)
            in case config_lookup (config self') ''github_authenticator'' ''oauth_callback_url'' of
                 Inl e \<Rightarrow> (Inl e, self')
               | Inr u \<Rightarrow> if truthy u then (Inr u, self')
                          else gitlab_block self' h)
      else gitlab_block self h)"

definition google_block ::
  "multi_oauthenticator \<Rightarrow> handler \<Rightarrow> (py_error + string) \<times> multi_oauthenticator" where
  "google_block self h =
     (if isinstance h GoogleLoginHandler
      then (let self' = set_oauth_tokens self (google_authenticator self)
            in if truthy (oauth_callback_url (google_authenticator self'))
               then (Inr (oauth_callback_url (google_authenticator self')), self')
               else github_block self' h)
      else github_block self h)"

definition get_callback_url ::
  "multi_oauthenticator \<Rightarrow> handler option \<Rightarrow> (py_error + string) \<times> multi_oauthenticator" where
  "get_callback_url self handler =
     (case handler of
        None \<Rightarrow> (Inl ValueError, self)
      | Some h \<Rightarrow> google_block self h)"

subsection \<open>get_handlers\<close>

text \<open>
  \<open>dict(pairs)[key]\<close>: the value of the last pair with that key, \<open>KeyError\<close> when there
  is none.
\<close>

definition dict_get :: "(string \<times> 'v) list \<Rightarrow> string \<Rightarrow> py_error + 'v" where
  "dict_get pairs key = (case map_of (rev pairs) key of None \<Rightarrow> Inl KeyError | Some v \<Rightarrow> Inr v)"

text \<open>One \<open>if self.enable_...\<close> block of \<open>get_handlers\<close>, for the provider's path segment.\<close>

definition extend_routes ::
  "bool \<Rightarrow> string \<Rightarrow> authenticator \<Rightarrow> (string \<times> handler_class) list
    \<Rightarrow> py_error + (string \<times> handler_class) list" where
  "extend_routes enabled seg sub h =
     (if enabled
      then (case dict_get (sub_handlers sub) ''/oauth_login'' of
              Inl e \<Rightarrow> Inl e
            | Inr lg \<Rightarrow>
                (case dict_get (sub_handlers sub) ''/oauth_callback'' of
                   Inl e \<Rightarrow> Inl e
                 | Inr cb \<Rightarrow>
                     Inr (h @ [(''/'' @ seg @ ''/login'', lg), (''/'' @ seg @ ''/callback'', cb)])))
      else Inr h)"

definition get_handlers :: "multi_oauthenticator \<Rightarrow> py_error + (string \<times> handler_class) list" where
  "get_handlers self =
     (case extend_routes (enable_google self) ''google'' (google_authenticator self)
             [(''/login'', MultiOAuthLoginHandler)] of
        Inl e \<Rightarrow> Inl e
      | Inr h1 \<Rightarrow>
          (case extend_routes (enable_github self) ''github'' (github_authenticator self) h1 of
             Inl e \<Rightarrow> Inl e
           | Inr h2 \<Rightarrow> extend_routes (enable_gitlab self) ''gitlab'' (gitlab_authenticator self) h2))"

subsection \<open>authenticate\<close>

definition authenticate ::
  "multi_oauthenticator \<Rightarrow> handler \<Rightarrow> form_data \<Rightarrow> py_error + identity option" where
  "authenticate self h data =
     (if isinstance h GoogleOAuthHandler
      then sub_authenticate (google_authenticator self) h data
      else sub_authenticate (github_authenticator self) h data)"

section \<open>The login page handler\<close>

text \<open>
  A \<open>MultiOAuthLoginHandler\<close> serving one request: the authenticator, the request and the
  hub's base URL. \<open>authenticator_login_url\<close> is what \<open>self.authenticator.login_url(
  self.hub.base_url)\<close> returns, a method inherited from outside this repository.
\<close>

record login_handler =
  lh_authenticator :: multi_oauthenticator
  lh_request :: http_request
  hub_base_url :: string
  authenticator_login_url :: string

record login_page =
  template :: string
  next_field :: string
  multiauth :: "(string \<times> bool) list"
  login_error :: "string option"
  login_url_field :: string

text \<open>What a handler method does to the response: \<open>self.redirect\<close> or \<open>self.finish\<close>.\<close>

datatype response = Redirect string bool | Finish login_page

text \<open>
  The status tornado sends: \<open>redirect(url, permanent)\<close> answers 301 when permanent and 302
  otherwise; \<open>finish\<close> keeps the default status 200.
\<close>

fun status_code :: "response \<Rightarrow> nat" where
  "status_code (Redirect url permanent) = (if permanent then 301 else 302)"
| "status_code (Finish page) = 200"

definition render :: "login_handler \<Rightarrow> string option \<Rightarrow> login_page" where
  "render self err =
     (let nextval = get_argument (lh_request self) ''next'' []
      in \<lparr>template = ''nlm/login.html'',
          next_field = url_escape nextval,
          multiauth = [(''google'', enable_google (lh_authenticator self)),
                       (''github'', enable_github (lh_authenticator self)),
                       (''gitlab'', enable_gitlab (lh_authenticator self))],
          login_error = err,
          login_url_field = url_concat (authenticator_login_url self) [(''next'', nextval)]\<rparr>)"

text \<open>The login URL \<open>'{}://{}{}<segment>/login'.format(protocol, host, base_url)\<close>.\<close>

definition provider_login_url :: "login_handler \<Rightarrow> string \<Rightarrow> string" where
  "provider_login_url self seg =
     protocol (lh_request self) @ ''://'' @ host (lh_request self) @ hub_base_url self
       @ seg @ ''/login''"

definition post :: "login_handler \<Rightarrow> response" where
  "post self =
     (let concat_data = [(''next'', get_argument (lh_request self) ''next'' [])]
      in if enable_google (lh_authenticator self)
            \<and> truthy_opt (get_argument_none (lh_request self) ''login_google'')
         then Redirect (url_concat (provider_login_url self ''google'') concat_data) False
         else if enable_github (lh_authenticator self)
            \<and> truthy_opt (get_argument_none (lh_request self) ''login_github'')
         then Redirect (url_concat (provider_login_url self ''github'') concat_data) False
         else if enable_gitlab (lh_authenticator self)
            \<and> truthy_opt (get_argument_none (lh_request self) ''login_gitlab'')
         then Redirect (url_concat (provider_login_url self ''gitlab'') concat_data) False
         else Finish (render self (Some ''Unknown or missing authenticator'')))"

section \<open>Provider keys and the registry order\<close>

text \<open>
  The module treats its three providers in three parallel blocks, always in the order
  google, github, gitlab. The definitions below name that order and give, for a provider
  key, the fields and literals the blocks use for it.
\<close>

datatype provider = Google | GitHub | GitLab

definition registry :: "provider list" where
  "registry = [Google, GitHub, GitLab]"

fun enabled :: "multi_oauthenticator \<Rightarrow> provider \<Rightarrow> bool" where
  "enabled self Google = enable_google self"
| "enabled self GitHub = enable_github self"
| "enabled self GitLab = enable_gitlab self"

fun sub_of :: "multi_oauthenticator \<Rightarrow> provider \<Rightarrow> authenticator" where
  "sub_of self Google = google_authenticator self"
| "sub_of self GitHub = github_authenticator self"
| "sub_of self GitLab = gitlab_authenticator self"

fun provider_key :: "provider \<Rightarrow> string" where
  "provider_key Google = ''google''"
| "provider_key GitHub = ''github''"
| "provider_key GitLab = ''gitlab''"

fun login_flag :: "provider \<Rightarrow> string" where
  "login_flag Google = ''login_google''"
| "login_flag GitHub = ''login_github''"
| "login_flag GitLab = ''login_gitlab''"

fun login_class :: "provider \<Rightarrow> handler_class" where
  "login_class Google = GoogleLoginHandler"
| "login_class GitHub = GitHubLoginHandler"
| "login_class GitLab = GitLabLoginHandler"

text \<open>A handler that is an instance of the login handler class of one provider only.\<close>

definition owned_by :: "handler \<Rightarrow> provider \<Rightarrow> bool" where
  "owned_by h p = list_all (\<lambda>q. isinstance h (login_class q) = (q = p)) registry"

text \<open>
  The condition of the \<open>if\<close>/\<open>elif\<close> branch of \<open>post\<close> for a provider: the provider is
  enabled and \<open>get_argument('login_<key>', None)\<close> is truthy.
\<close>

definition flag_set :: "login_handler \<Rightarrow> provider \<Rightarrow> bool" where
  "flag_set self p =
     (enabled (lh_authenticator self) p
      \<and> truthy_opt (get_argument_none (lh_request self) (login_flag p)))"

text \<open>The credentials read from the dispatcher, and those a sub-authenticator carries.\<close>

definition credentials ::
  "multi_oauthenticator \<Rightarrow> string option \<times> string option \<times> string list option" where
  "credentials self = (prop_client_id self, prop_client_secret self, prop_scope self)"

definition sub_credentials ::
  "authenticator \<Rightarrow> string option \<times> string option \<times> string list option" where
  "sub_credentials sub = (Some (client_id sub), Some (client_secret sub), Some (scope sub))"

text \<open>
  No block of \<open>get_callback_url\<close> returns a configured URL or raises for this handler: the
  URL tested in each block the handler enters is there and empty.
\<close>

definition no_configured_url :: "multi_oauthenticator \<Rightarrow> handler \<Rightarrow> bool" where
  "no_configured_url self h =
     ((isinstance h GoogleLoginHandler \<longrightarrow> oauth_callback_url (google_authenticator self) = [])
      \<and> (isinstance h GitHubLoginHandler \<longrightarrow>
           config_lookup (config self) ''github_authenticator'' ''oauth_callback_url'' = Inr [])
      \<and> (isinstance h GitLabLoginHandler \<longrightarrow>
           config_lookup (config self) ''gitlab_authenticator'' ''oauth_callback_url'' = Inr []))"

text \<open>
  A request target in origin form is an absolute path, followed by nothing or by a query
  or a fragment. The path starts with one slash and has none of the characters that end
  the path or that \<open>urlsplit\<close> removes.
\<close>

definition origin_form :: "string \<Rightarrow> bool" where
  "origin_form p =
     (take 1 p = ''/'' \<and> take 2 p \<noteq> ''//''
      \<and> list_all (\<lambda>c. c \<notin> set [CHR ''?'', CHR ''#'', CHR 0x09, CHR 0x0A, CHR 0x0D]) p)"

definition behind_path :: "string \<Rightarrow> bool" where
  "behind_path t = (take 1 t = [] \<or> take 1 t = ''?'' \<or> take 1 t = ''#'')"

text \<open>
  The route table as the specification words it: the chooser route first, then the login
  and the callback route of every enabled provider, in registry order.
\<close>

definition provider_routes :: "multi_oauthenticator \<Rightarrow> provider \<Rightarrow> (string \<times> handler_class) list" where
  "provider_routes self p =
     (case (dict_get (sub_handlers (sub_of self p)) ''/oauth_login'',
            dict_get (sub_handlers (sub_of self p)) ''/oauth_callback'') of
        (Inr lg, Inr cb) \<Rightarrow>
          [(''/'' @ provider_key p @ ''/login'', lg), (''/'' @ provider_key p @ ''/callback'', cb)]
      | _ \<Rightarrow> [])"

definition route_table :: "multi_oauthenticator \<Rightarrow> (string \<times> handler_class) list" where
  "route_table self =
     (''/login'', MultiOAuthLoginHandler)
       # concat (map (provider_routes self) (filter (enabled self) registry))"

text \<open>An enabled provider's sub-authenticator exposes a login and a callback handler.\<close>

definition exposes_handlers :: "authenticator \<Rightarrow> bool" where
  "exposes_handlers sub =
     (map_of (sub_handlers sub) ''/oauth_login'' \<noteq> None
      \<and> map_of (sub_handlers sub) ''/oauth_callback'' \<noteq> None)"

section \<open>A concrete deployment\<close>

text \<open>
  Three sub-authenticators as the oauthenticator package ships them (GitHub and GitLab use
  the generic callback handler), each with its own credentials and callback URL, and a
  hub at \<open>https://hub.example.org/hub/\<close>.
\<close>

definition ex_google :: authenticator where
  "ex_google =
     \<lparr>client_id = ''google-id'', client_secret = ''google-secret'', scope = [''openid'', ''email''],
      oauth_callback_url = ''https://hub.example.org/hub/google/callback'',
      sub_handlers = [(''/oauth_login'', GoogleLoginHandler), (''/oauth_callback'', GoogleOAuthHandler)],
      sub_authenticate = (\<lambda>h data. Inr (Some ''google-user''))\<rparr>"

definition ex_github :: authenticator where
  "ex_github =
     \<lparr>client_id = ''github-id'', client_secret = ''github-secret'', scope = [],
      oauth_callback_url = ''https://hub.example.org/hub/github/callback'',
      sub_handlers = [(''/oauth_login'', GitHubLoginHandler), (''/oauth_callback'', OAuthCallbackHandler)],
      sub_authenticate = (\<lambda>h data. Inr (Some ''github-user''))\<rparr>"

definition ex_gitlab :: authenticator where
  "ex_gitlab =
     \<lparr>client_id = ''gitlab-id'', client_secret = ''gitlab-secret'', scope = [''read_user''],
      oauth_callback_url = ''https://hub.example.org/hub/gitlab/callback'',
      sub_handlers = [(''/oauth_login'', GitLabLoginHandler), (''/oauth_callback'', OAuthCallbackHandler)],
      sub_authenticate = (\<lambda>h data. Inr (Some ''gitlab-user''))\<rparr>"

text \<open>A configuration that carries the two entries \<open>get_callback_url\<close> reads from \<open>self.config\<close>.\<close>

definition ex_config :: config where
  "ex_config =
     [''github_authenticator'' \<mapsto> [''oauth_callback_url'' \<mapsto> ''https://hub.example.org/hub/github/callback''],
      ''gitlab_authenticator'' \<mapsto> [''oauth_callback_url'' \<mapsto> ''https://hub.example.org/hub/gitlab/callback'']]"

definition ex_multi :: multi_oauthenticator where
  "ex_multi = init True True True ex_google ex_github ex_gitlab ex_config"

text \<open>The same deployment with no callback URL configured for google.\<close>

definition ex_unconfigured :: multi_oauthenticator where
  "ex_unconfigured = ex_multi\<lparr>google_authenticator := ex_google\<lparr>oauth_callback_url := []\<rparr>\<rparr>"

definition ex_request :: "string \<Rightarrow> http_request" where
  "ex_request u = \<lparr>protocol = ''https'', host = ''hub.example.org'', uri = u, arguments = Map.empty\<rparr>"

definition ex_google_login :: handler where
  "ex_google_login =
     \<lparr>mro = [GoogleLoginHandler, OAuthLoginHandler],
      request = ex_request ''/hub/google/login?next=%2Fhub%2Fhome''\<rparr>"

definition ex_github_login :: handler where
  "ex_github_login =
     \<lparr>mro = [GitHubLoginHandler, OAuthLoginHandler],
      request = ex_request ''/hub/github/login?next=%2Fhub%2Fhome''\<rparr>"

definition ex_google_callback :: handler where
  "ex_google_callback =
     \<lparr>mro = [GoogleOAuthHandler, OAuthCallbackHandler],
      request = ex_request ''/hub/google/callback?code=c0de&state=5tate''\<rparr>"

definition ex_github_callback :: handler where
  "ex_github_callback =
     \<lparr>mro = [OAuthCallbackHandler],
      request = ex_request ''/hub/github/callback?code=c0de&state=5tate''\<rparr>"

definition ex_gitlab_callback :: handler where
  "ex_gitlab_callback =
     \<lparr>mro = [OAuthCallbackHandler],
      request = ex_request ''/hub/gitlab/callback?code=c0de&state=5tate''\<rparr>"

definition ex_chooser :: handler where
  "ex_chooser =
     \<lparr>mro = [MultiOAuthLoginHandler, OAuthLoginHandler], request = ex_request ''/hub/login''\<rparr>"

text \<open>The chooser form, posted with the given arguments.\<close>

definition ex_post :: "(string \<rightharpoonup> string) \<Rightarrow> login_handler" where
  "ex_post args =
     \<lparr>lh_authenticator = ex_multi,
      lh_request = \<lparr>protocol = ''https'', host = ''hub.example.org'', uri = ''/hub/login'',
                    arguments = args\<rparr>,
      hub_base_url = ''/hub/'',
      authenticator_login_url = ''/hub/oauth_login''\<rparr>"

section \<open>Facts about the credential context\<close>

lemma set_oauth_tokens_twice:
  "set_oauth_tokens (set_oauth_tokens self a) b = set_oauth_tokens self b"
  by (simp add: set_oauth_tokens_def)

lemma set_oauth_tokens_fields:
  "google_authenticator (set_oauth_tokens self a) = google_authenticator self"
  "github_authenticator (set_oauth_tokens self a) = github_authenticator self"
  "gitlab_authenticator (set_oauth_tokens self a) = gitlab_authenticator self"
  "config (set_oauth_tokens self a) = config self"
  "enable_google (set_oauth_tokens self a) = enable_google self"
  "enable_github (set_oauth_tokens self a) = enable_github self"
  "enable_gitlab (set_oauth_tokens self a) = enable_gitlab self"
  by (simp_all add: set_oauth_tokens_def)

lemma credentials_set_oauth_tokens:
  "credentials (set_oauth_tokens self a) = sub_credentials a"
  by (simp add: credentials_def sub_credentials_def set_oauth_tokens_def prop_client_id_def
      prop_client_secret_def prop_scope_def)

text \<open>The object each block leaves behind: the last \<open>set_oauth_tokens\<close> that ran wins.\<close>

lemma gitlab_block_state:
  "snd (gitlab_block self h) =
     (if isinstance h GitLabLoginHandler
      then set_oauth_tokens self (gitlab_authenticator self) else self)"
  by (simp add: gitlab_block_def Let_def split: sum.splits)

lemma github_block_state:
  "snd (github_block self h) =
     (if isinstance h GitLabLoginHandler
        \<and> \<not> (isinstance h GitHubLoginHandler
             \<and> (\<forall>u. config_lookup (config self) ''github_authenticator'' ''oauth_callback_url''
                        = Inr u \<longrightarrow> truthy u))
      then set_oauth_tokens self (gitlab_authenticator self)
      else if isinstance h GitHubLoginHandler
           then set_oauth_tokens self (github_authenticator self)
           else self)"
  by (auto simp add: github_block_def gitlab_block_state Let_def set_oauth_tokens_twice
      set_oauth_tokens_fields split: sum.splits)

lemma github_block_cases:
  "snd (github_block self h) = self
   \<or> snd (github_block self h) = set_oauth_tokens self (github_authenticator self)
   \<or> snd (github_block self h) = set_oauth_tokens self (gitlab_authenticator self)"
  by (simp add: github_block_state)

lemma google_block_cases:
  "snd (google_block self h) = self
   \<or> snd (google_block self h) = set_oauth_tokens self (google_authenticator self)
   \<or> snd (google_block self h) = set_oauth_tokens self (github_authenticator self)
   \<or> snd (google_block self h) = set_oauth_tokens self (gitlab_authenticator self)"
proof (cases "isinstance h GoogleLoginHandler")
  case False
  then have e: "google_block self h = github_block self h"
    by (simp add: google_block_def)
  show ?thesis unfolding e using github_block_cases [of self h] by blast
next
  case True
  let ?s = "set_oauth_tokens self (google_authenticator self)"
  show ?thesis
  proof (cases "truthy (oauth_callback_url (google_authenticator self))")
    case True
    with \<open>isinstance h GoogleLoginHandler\<close> have "snd (google_block self h) = ?s"
      by (simp add: google_block_def Let_def set_oauth_tokens_fields)
    then show ?thesis by simp
  next
    case False
    with \<open>isinstance h GoogleLoginHandler\<close> have e: "google_block self h = github_block ?s h"
      by (simp add: google_block_def Let_def set_oauth_tokens_fields)
    have "snd (github_block ?s h) = ?s
      \<or> snd (github_block ?s h) = set_oauth_tokens self (github_authenticator self)
      \<or> snd (github_block ?s h) = set_oauth_tokens self (gitlab_authenticator self)"
      using github_block_cases [of ?s h]
      by (simp only: set_oauth_tokens_twice set_oauth_tokens_fields)
    then show ?thesis unfolding e by blast
  qed
qed

lemma get_callback_url_state_cases:
  "snd (get_callback_url self handler) = self
   \<or> snd (get_callback_url self handler) = set_oauth_tokens self (google_authenticator self)
   \<or> snd (get_callback_url self handler) = set_oauth_tokens self (github_authenticator self)
   \<or> snd (get_callback_url self handler) = set_oauth_tokens self (gitlab_authenticator self)"
proof (cases handler)
  case None
  then show ?thesis by (simp add: get_callback_url_def)
next
  case (Some h)
  then have e: "get_callback_url self handler = google_block self h"
    by (simp add: get_callback_url_def)
  show ?thesis unfolding e by (rule google_block_cases)
qed

lemma owned_by_iff:
  "owned_by h p \<longleftrightarrow>
     (isinstance h GoogleLoginHandler = (p = Google))
     \<and> (isinstance h GitHubLoginHandler = (p = GitHub))
     \<and> (isinstance h GitLabLoginHandler = (p = GitLab))"
  by (auto simp add: owned_by_def registry_def)

lemma get_callback_url_owned_state:
  assumes "owned_by h p"
  shows "snd (get_callback_url self (Some h)) = set_oauth_tokens self (sub_of self p)"
  using assms
  by (cases p)
     (auto simp add: owned_by_iff get_callback_url_def google_block_def github_block_state Let_def
       set_oauth_tokens_twice set_oauth_tokens_fields)

section \<open>The credential context (C10, C2)\<close>

text \<open>
  C10. Right after construction the readable \<open>client_id\<close>, \<open>client_secret\<close> and \<open>scope\<close>
  are all \<open>None\<close>. \<open>set_oauth_tokens\<close> overwrites the three together with the values of the
  one sub-authenticator it is given. The only other operation that changes the object,
  \<open>get_callback_url\<close>, leaves the three as they were or leaves the object exactly as one
  call of \<open>set_oauth_tokens\<close> on one of the three sub-authenticators does; \<open>get_handlers\<close>
  and \<open>authenticate\<close> return no new object. The properties have no setter: the model has
  no operation that writes them.
\<close>

theorem credentials_only_from_set_oauth_tokens:
  "credentials (init eg eh el ga ha la c) = (None, None, None)
   \<and> credentials (set_oauth_tokens self sub)
       = (Some (client_id sub), Some (client_secret sub), Some (scope sub))
   \<and> (credentials (snd (get_callback_url self handler)) = credentials self
       \<or> snd (get_callback_url self handler) = set_oauth_tokens self (google_authenticator self)
       \<or> snd (get_callback_url self handler) = set_oauth_tokens self (github_authenticator self)
       \<or> snd (get_callback_url self handler) = set_oauth_tokens self (gitlab_authenticator self))"
proof -
  have a: "credentials (init eg eh el ga ha la c) = (None, None, None)"
    by (simp add: credentials_def init_def prop_client_id_def prop_client_secret_def
        prop_scope_def)
  have b: "credentials (set_oauth_tokens self sub)
             = (Some (client_id sub), Some (client_secret sub), Some (scope sub))"
    using credentials_set_oauth_tokens [of self sub] by (simp add: sub_credentials_def)
  from a b get_callback_url_state_cases [of self handler] show ?thesis by auto
qed

text \<open>
  C2, as the code has it. After \<open>get_callback_url(handlerA)\<close> and then
  \<open>get_callback_url(handlerB)\<close>, where \<open>handlerB\<close> is a login handler of provider B only,
  the credentials read from the dispatcher are those of B's sub-authenticator, whatever
  \<open>handlerA\<close> was: the context is one field of the shared object and the last resolution
  overwrites it.
\<close>

theorem last_resolved_provider_credentials:
  assumes "owned_by hB pB"
  shows "credentials (snd (get_callback_url (snd (get_callback_url self hA)) (Some hB)))
           = sub_credentials (sub_of self pB)"
proof -
  let ?s1 = "snd (get_callback_url self hA)"
  have sub: "sub_of ?s1 pB = sub_of self pB"
    using get_callback_url_state_cases [of self hA]
    by (cases pB) (auto simp add: set_oauth_tokens_fields)
  have "snd (get_callback_url ?s1 (Some hB)) = set_oauth_tokens ?s1 (sub_of ?s1 pB)"
    using assms by (rule get_callback_url_owned_state)
  then show ?thesis
    by (simp add: sub credentials_set_oauth_tokens)
qed

theorem last_resolved_provider_credentials_witness:
  "owned_by ex_github_login GitHub
   \<and> credentials (snd (get_callback_url (snd (get_callback_url ex_multi (Some ex_google_login)))
                         (Some ex_github_login)))
       = (Some ''github-id'', Some ''github-secret'', Some [])"
proof -
  have h: "owned_by ex_github_login GitHub"
    by (simp add: owned_by_def registry_def isinstance_def ex_github_login_def)
  show ?thesis
    using h last_resolved_provider_credentials [OF h, of ex_multi "Some ex_google_login"]
    by (simp add: sub_credentials_def ex_multi_def init_def ex_github_def)
qed

text \<open>
  C2 as the specification states it fails. Attempt A (google) resolves its callback URL,
  attempt B (github) resolves its own, and the credentials then read for A's exchange are
  github's, not google's.
\<close>

theorem shared_credentials_counterexample:
  "fst (get_callback_url ex_multi (Some ex_google_login))
     = Inr ''https://hub.example.org/hub/google/callback''
   \<and> fst (get_callback_url (snd (get_callback_url ex_multi (Some ex_google_login)))
            (Some ex_github_login))
       = Inr ''https://hub.example.org/hub/github/callback''
   \<and> credentials (snd (get_callback_url (snd (get_callback_url ex_multi (Some ex_google_login)))
                         (Some ex_github_login)))
       = (Some ''github-id'', Some ''github-secret'', Some [])
   \<and> credentials (snd (get_callback_url (snd (get_callback_url ex_multi (Some ex_google_login)))
                         (Some ex_github_login)))
       \<noteq> sub_credentials (google_authenticator ex_multi)"
  by (simp add: get_callback_url_def google_block_def github_block_def isinstance_def
      config_lookup_def truthy_def set_oauth_tokens_def Let_def ex_multi_def init_def
      ex_google_def ex_github_def ex_config_def ex_request_def ex_google_login_def
      ex_github_login_def credentials_def sub_credentials_def prop_client_id_def
      prop_client_secret_def prop_scope_def)

section \<open>The route table (C4)\<close>

lemma map_of_rev_None: "map_of (rev xs) k = None \<longleftrightarrow> map_of xs k = None"
  by (simp add: map_of_eq_None_iff)

lemma dict_get_Inr: "map_of pairs key \<noteq> None \<Longrightarrow> \<exists>v. dict_get pairs key = Inr v"
  using map_of_rev_None [of pairs key]
  by (auto simp add: dict_get_def split: option.splits)

lemma extend_routes_enabled:
  assumes "exposes_handlers (sub_of self p)"
  shows "extend_routes True (provider_key p) (sub_of self p) h = Inr (h @ provider_routes self p)
         \<and> length (provider_routes self p) = 2"
proof -
  from assms obtain lg cb where
    "dict_get (sub_handlers (sub_of self p)) ''/oauth_login'' = Inr lg"
    "dict_get (sub_handlers (sub_of self p)) ''/oauth_callback'' = Inr cb"
    unfolding exposes_handlers_def using dict_get_Inr by metis
  then show ?thesis
    by (simp add: extend_routes_def provider_routes_def)
qed

lemma extend_routes_step:
  assumes "enabled self p \<longrightarrow> exposes_handlers (sub_of self p)"
  shows "extend_routes (enabled self p) (provider_key p) (sub_of self p) h
           = Inr (h @ (if enabled self p then provider_routes self p else []))"
proof (cases "enabled self p")
  case True
  with assms extend_routes_enabled [of self p h] show ?thesis by simp
next
  case False
  then show ?thesis by (simp add: extend_routes_def)
qed

lemma get_handlers_route_table:
  assumes "\<forall>p. enabled self p \<longrightarrow> exposes_handlers (sub_of self p)"
  shows "get_handlers self = Inr (route_table self)"
proof -
  have step: "extend_routes (enabled self p) (provider_key p) (sub_of self p) h
           = Inr (h @ (if enabled self p then provider_routes self p else []))" for p h
    using assms by (intro extend_routes_step) simp
  show ?thesis
    using step [of Google] step [of GitHub] step [of GitLab]
    by (simp add: get_handlers_def route_table_def registry_def)
qed

lemma provider_UNIV: "(UNIV :: provider set) = set registry"
proof -
  have "p \<in> set registry" for p by (cases p) (simp_all add: registry_def)
  then show ?thesis by auto
qed

lemma card_enabled: "card {p. enabled self p} = length (filter (enabled self) registry)"
proof -
  have "{p. enabled self p} = set (filter (enabled self) registry)"
    using provider_UNIV by auto
  moreover have "distinct (filter (enabled self) registry)"
    by (simp add: registry_def)
  then have "card (set (filter (enabled self) registry)) = length (filter (enabled self) registry)"
    by (rule distinct_card)
  ultimately show ?thesis by (simp only:)
qed

lemma length_route_table:
  assumes "\<forall>p. enabled self p \<longrightarrow> exposes_handlers (sub_of self p)"
  shows "length (route_table self) = 2 * card {p. enabled self p} + 1"
proof -
  have "length (concat (map (provider_routes self) ps)) = 2 * length ps"
    if "\<forall>p \<in> set ps. exposes_handlers (sub_of self p)" for ps
    using that
  proof (induction ps)
    case Nil
    then show ?case by simp
  next
    case (Cons p ps)
    then show ?case using extend_routes_enabled [of self p "[]"] by simp
  qed
  from this [of "filter (enabled self) registry"] assms
  show ?thesis by (simp add: route_table_def card_enabled)
qed

lemma provider_routes_paths:
  "fst ` set (provider_routes self p)
     \<subseteq> {''/'' @ provider_key p @ ''/login'', ''/'' @ provider_key p @ ''/callback''}"
  by (auto simp add: provider_routes_def split: sum.splits)

lemma provider_key_inject:
  "''/'' @ provider_key p @ x \<in> {''/'' @ provider_key q @ ''/login'', ''/'' @ provider_key q @ ''/callback''}
   \<Longrightarrow> x \<in> {''/login'', ''/callback''} \<Longrightarrow> p = q"
  by (cases p; cases q; auto)

lemma disabled_absent:
  assumes "\<not> enabled self p" and x: "x \<in> {''/login'', ''/callback''}"
  shows "''/'' @ provider_key p @ x \<notin> fst ` set (route_table self)"
proof
  assume "''/'' @ provider_key p @ x \<in> fst ` set (route_table self)"
  then obtain b where "(''/'' @ provider_key p @ x, b) \<in> set (route_table self)"
    by auto
  moreover have "''/'' @ provider_key p @ x \<noteq> ''/login''"
    using x by (cases p) auto
  ultimately obtain q where q: "enabled self q"
    and "(''/'' @ provider_key p @ x, b) \<in> set (provider_routes self q)"
    by (auto simp add: route_table_def)
  then have "''/'' @ provider_key p @ x \<in> fst ` set (provider_routes self q)"
    by force
  with provider_routes_paths [of self q] x have "p = q"
    by (intro provider_key_inject [of p x q]) auto
  with q assms show False by simp
qed

text \<open>
  C4. When the sub-authenticator of every enabled provider exposes a login and a callback
  handler, \<open>get_handlers\<close> returns the route table of the specification: the chooser route
  \<open>/login\<close> first, then \<open>/<key>/login\<close> and \<open>/<key>/callback\<close> with that provider's own two
  handlers for each enabled key, in all \<open>2|P| + 1\<close> routes for the set \<open>P\<close> of enabled
  providers; neither path of a disabled provider is in the table.
\<close>

theorem get_handlers_routes:
  assumes "list_all exposes_handlers (map (sub_of self) (filter (enabled self) registry))"
  shows "get_handlers self = Inr (route_table self)
       \<and> length (route_table self) = 2 * card {p. enabled self p} + 1
       \<and> hd (route_table self) = (''/login'', MultiOAuthLoginHandler)
       \<and> (\<forall>p. enabled self p \<longrightarrow>
             (\<exists>lg cb. dict_get (sub_handlers (sub_of self p)) ''/oauth_login'' = Inr lg
                    \<and> dict_get (sub_handlers (sub_of self p)) ''/oauth_callback'' = Inr cb
                    \<and> (''/'' @ provider_key p @ ''/login'', lg) \<in> set (route_table self)
                    \<and> (''/'' @ provider_key p @ ''/callback'', cb) \<in> set (route_table self)))
       \<and> (\<forall>p. \<not> enabled self p \<longrightarrow>
             ''/'' @ provider_key p @ ''/login'' \<notin> fst ` set (route_table self)
           \<and> ''/'' @ provider_key p @ ''/callback'' \<notin> fst ` set (route_table self))"
proof -
  have ex: "\<forall>p. enabled self p \<longrightarrow> exposes_handlers (sub_of self p)"
    using assms provider_UNIV by (auto simp add: list_all_iff)
  have present: "\<exists>lg cb. dict_get (sub_handlers (sub_of self p)) ''/oauth_login'' = Inr lg
                    \<and> dict_get (sub_handlers (sub_of self p)) ''/oauth_callback'' = Inr cb
                    \<and> (''/'' @ provider_key p @ ''/login'', lg) \<in> set (route_table self)
                    \<and> (''/'' @ provider_key p @ ''/callback'', cb) \<in> set (route_table self)"
    if en: "enabled self p" for p
  proof -
    from ex en have "exposes_handlers (sub_of self p)" by simp
    then obtain lg cb where
      d: "dict_get (sub_handlers (sub_of self p)) ''/oauth_login'' = Inr lg"
         "dict_get (sub_handlers (sub_of self p)) ''/oauth_callback'' = Inr cb"
      unfolding exposes_handlers_def using dict_get_Inr by metis
    then have "set (provider_routes self p)
                 = {(''/'' @ provider_key p @ ''/login'', lg), (''/'' @ provider_key p @ ''/callback'', cb)}"
      by (simp add: provider_routes_def)
    moreover have "set (provider_routes self p) \<subseteq> set (route_table self)"
      using en provider_UNIV by (auto simp add: route_table_def)
    ultimately show ?thesis using d by auto
  qed
  have absent: "''/'' @ provider_key p @ ''/login'' \<notin> fst ` set (route_table self)
           \<and> ''/'' @ provider_key p @ ''/callback'' \<notin> fst ` set (route_table self)"
    if "\<not> enabled self p" for p
    using that disabled_absent [of self p "''/login''"] disabled_absent [of self p "''/callback''"]
    by simp
  have "hd (route_table self) = (''/login'', MultiOAuthLoginHandler)"
    by (simp add: route_table_def)
  with get_handlers_route_table [OF ex] length_route_table [OF ex] present absent
  show ?thesis by blast
qed

theorem get_handlers_routes_witness:
  "list_all exposes_handlers
     (map (sub_of (ex_multi\<lparr>enable_gitlab := False\<rparr>))
        (filter (enabled (ex_multi\<lparr>enable_gitlab := False\<rparr>)) registry))
   \<and> get_handlers (ex_multi\<lparr>enable_gitlab := False\<rparr>)
       = Inr [(''/login'', MultiOAuthLoginHandler),
              (''/google/login'', GoogleLoginHandler), (''/google/callback'', GoogleOAuthHandler),
              (''/github/login'', GitHubLoginHandler), (''/github/callback'', OAuthCallbackHandler)]
   \<and> card {p. enabled (ex_multi\<lparr>enable_gitlab := False\<rparr>) p} = 2
   \<and> ''/gitlab/login'' \<notin> fst ` set (route_table (ex_multi\<lparr>enable_gitlab := False\<rparr>))
   \<and> ''/gitlab/callback'' \<notin> fst ` set (route_table (ex_multi\<lparr>enable_gitlab := False\<rparr>))"
proof -
  let ?m = "ex_multi\<lparr>enable_gitlab := False\<rparr>"
  have h: "list_all exposes_handlers (map (sub_of ?m) (filter (enabled ?m) registry))"
    by (simp add: registry_def exposes_handlers_def ex_multi_def init_def ex_google_def
        ex_github_def)
  have rt: "route_table ?m
       = [(''/login'', MultiOAuthLoginHandler),
              (''/google/login'', GoogleLoginHandler), (''/google/callback'', GoogleOAuthHandler),
              (''/github/login'', GitHubLoginHandler), (''/github/callback'', OAuthCallbackHandler)]"
    by (simp add: route_table_def registry_def provider_routes_def dict_get_def ex_multi_def
        init_def ex_google_def ex_github_def)
  have dis: "\<not> enabled ?m GitLab" by simp
  from get_handlers_routes [OF h] have
    g: "get_handlers ?m = Inr (route_table ?m)"
    and l: "length (route_table ?m) = 2 * card {p. enabled ?m p} + 1"
    and a: "\<forall>p. \<not> enabled ?m p \<longrightarrow>
             ''/'' @ provider_key p @ ''/login'' \<notin> fst ` set (route_table ?m)
           \<and> ''/'' @ provider_key p @ ''/callback'' \<notin> fst ` set (route_table ?m)"
    by blast+
  from l have "card {p. enabled ?m p} = 2" unfolding rt by simp
  moreover from a dis have "''/gitlab/login'' \<notin> fst ` set (route_table ?m)
     \<and> ''/gitlab/callback'' \<notin> fst ` set (route_table ?m)"
    by (metis append_Cons append_Nil provider_key.simps(3))
  ultimately show ?thesis using h g unfolding rt by simp
qed

section \<open>The chooser form (C7, C8)\<close>

text \<open>\<open>post\<close> takes the first provider of the registry order whose branch condition holds.\<close>

lemma post_find:
  "post self =
     (case find (flag_set self) registry of
        Some p \<Rightarrow> Redirect (url_concat (provider_login_url self (provider_key p))
                              [(''next'', get_argument (lh_request self) ''next'' [])]) False
      | None \<Rightarrow> Finish (render self (Some ''Unknown or missing authenticator'')))"
  by (simp add: post_def registry_def flag_set_def Let_def)

text \<open>
  C7, as the code has it. On POST \<open>/login\<close> the controller checks the provider flags in the
  order google, github, gitlab, and for the first provider that is enabled and whose flag
  is submitted with a non-empty value it issues a non-permanent (302) redirect to
  \<open><scheme>://<host><base_url><key>/login\<close>, the hub's base URL ending in a slash, with the
  submitted \<open>next\<close> value carried as a query argument by \<open>url_concat\<close>. With
  \<open>next="/foo"\<close> and only \<open>login_github\<close> set the target is
  \<open>.../github/login?next=%2Ffoo\<close>.
\<close>

theorem post_redirects_first_set_flag:
  assumes "find (flag_set self) registry = Some p"
  shows "post self =
           Redirect (url_concat (protocol (lh_request self) @ ''://'' @ host (lh_request self)
                                   @ hub_base_url self @ provider_key p @ ''/login'')
                       [(''next'', get_argument (lh_request self) ''next'' [])]) False
         \<and> status_code (post self) = 302"
  using assms by (simp add: post_find provider_login_url_def)

theorem post_redirects_first_set_flag_witness:
  "find (flag_set (ex_post [''next'' \<mapsto> ''/foo'', ''login_github'' \<mapsto> ''1''])) registry = Some GitHub
   \<and> post (ex_post [''next'' \<mapsto> ''/foo'', ''login_github'' \<mapsto> ''1''])
       = Redirect ''https://hub.example.org/hub/github/login?next=%2Ffoo'' False
   \<and> status_code (post (ex_post [''next'' \<mapsto> ''/foo'', ''login_github'' \<mapsto> ''1''])) = 302"
proof -
  let ?f = "ex_post [''next'' \<mapsto> ''/foo'', ''login_github'' \<mapsto> ''1'']"
  have h: "find (flag_set ?f) registry = Some GitHub"
    by (simp add: ex_post_def post_def flag_set_def registry_def truthy_opt_def truthy_def
        get_argument_none_def get_argument_def provider_login_url_def ex_multi_def init_def
        Let_def)
  have u: "url_concat ''https://hub.example.org/hub/github/login'' [(''next'', ''/foo'')]
             = ''https://hub.example.org/hub/github/login?next=%2Ffoo''"
    by (simp add: url_concat_def urlencode_def url_escape_def quote_byte_def always_safe_def
        ascii_alpha_def ascii_digit_def hex_digit_def)
  from post_redirects_first_set_flag [OF h] show ?thesis
    using h u by (simp add: ex_post_def get_argument_def)
qed

text \<open>
  C7 as the specification states it fails: a flag that is present in the form with an
  empty value is passed over. With google enabled and \<open>login_google\<close> submitted blank,
  no redirect to google's login path is issued; the chooser page is rendered again.
\<close>

theorem post_blank_flag_counterexample:
  "enabled (lh_authenticator (ex_post [''next'' \<mapsto> ''/foo'', ''login_google'' \<mapsto> ''''])) Google
   \<and> arguments (lh_request (ex_post [''next'' \<mapsto> ''/foo'', ''login_google'' \<mapsto> ''''])) (login_flag Google)
       = Some ''''
   \<and> post (ex_post [''next'' \<mapsto> ''/foo'', ''login_google'' \<mapsto> ''''])
       = Finish (render (ex_post [''next'' \<mapsto> ''/foo'', ''login_google'' \<mapsto> ''''])
                   (Some ''Unknown or missing authenticator''))
   \<and> status_code (post (ex_post [''next'' \<mapsto> ''/foo'', ''login_google'' \<mapsto> ''''])) = 200"
  by (simp add: ex_post_def post_def flag_set_def registry_def truthy_opt_def truthy_def
        get_argument_none_def get_argument_def provider_login_url_def ex_multi_def init_def
        Let_def)

text \<open>
  C8. When no provider flag is both present in the form and enabled, \<open>post\<close> issues no
  redirect: it finishes with the chooser page rendered with the \<open>login_error\<close> message
  "Unknown or missing authenticator", under the default status 200.
\<close>

theorem post_without_flag_renders_error:
  assumes "list_all (\<lambda>p. \<not> (enabled (lh_authenticator self) p
                              \<and> arguments (lh_request self) (login_flag p) \<noteq> None)) registry"
  shows "post self = Finish (render self (Some ''Unknown or missing authenticator''))
         \<and> login_error (render self (Some ''Unknown or missing authenticator''))
             = Some ''Unknown or missing authenticator''
         \<and> status_code (post self) = 200
         \<and> (\<forall>url permanent. post self \<noteq> Redirect url permanent)"
proof -
  have "find (flag_set self) registry = None"
    using assms
    by (auto simp add: registry_def flag_set_def truthy_opt_def get_argument_none_def
        split: option.splits)
  then have "post self = Finish (render self (Some ''Unknown or missing authenticator''))"
    by (simp add: post_find)
  then show ?thesis by (simp add: render_def Let_def)
qed

theorem post_without_flag_renders_error_witness:
  "list_all (\<lambda>p. \<not> (enabled (lh_authenticator (ex_post [''next'' \<mapsto> ''/foo''])) p
                      \<and> arguments (lh_request (ex_post [''next'' \<mapsto> ''/foo''])) (login_flag p) \<noteq> None))
     registry
   \<and> status_code (post (ex_post [''next'' \<mapsto> ''/foo''])) = 200
   \<and> login_error (render (ex_post [''next'' \<mapsto> ''/foo'']) (Some ''Unknown or missing authenticator''))
       = Some ''Unknown or missing authenticator''
   \<and> next_field (render (ex_post [''next'' \<mapsto> ''/foo'']) (Some ''Unknown or missing authenticator''))
       = ''%2Ffoo''"
proof -
  let ?f = "ex_post [''next'' \<mapsto> ''/foo'']"
  have h: "list_all (\<lambda>p. \<not> (enabled (lh_authenticator ?f) p
                      \<and> arguments (lh_request ?f) (login_flag p) \<noteq> None)) registry"
    by (simp add: registry_def ex_post_def)
  have n: "next_field (render ?f (Some ''Unknown or missing authenticator'')) = ''%2Ffoo''"
    by (simp add: render_def ex_post_def get_argument_def url_escape_def quote_byte_def
        always_safe_def ascii_alpha_def ascii_digit_def hex_digit_def)
  from post_without_flag_renders_error [OF h] h n show ?thesis by simp
qed

section \<open>Delegation of authenticate (C1)\<close>

text \<open>
  C1, as the code has it. \<open>authenticate\<close> consults neither the enable flags nor a registry
  and raises no dispatch error of its own: a handler that is a \<open>GoogleOAuthHandler\<close> is
  forwarded, with the form data, to the google sub-authenticator, and every other handler
  is forwarded to a sub-authenticator other than google's.
\<close>

theorem authenticate_forwards:
  "(isinstance h GoogleOAuthHandler \<longrightarrow>
      authenticate self h data = sub_authenticate (google_authenticator self) h data)
   \<and> (\<not> isinstance h GoogleOAuthHandler \<longrightarrow>
      (\<exists>p. p \<noteq> Google \<and> authenticate self h data = sub_authenticate (sub_of self p) h data))"
proof -
  have "\<exists>p. p \<noteq> Google \<and> sub_authenticate (github_authenticator self) h data
                              = sub_authenticate (sub_of self p) h data"
    by (rule exI [of _ GitHub]) simp
  then show ?thesis by (simp add: authenticate_def)
qed

theorem authenticate_forwards_witness:
  "isinstance ex_google_callback GoogleOAuthHandler
   \<and> authenticate ex_multi ex_google_callback [] = Inr (Some ''google-user'')
   \<and> \<not> isinstance ex_github_callback GoogleOAuthHandler
   \<and> authenticate ex_multi ex_github_callback [] = Inr (Some ''github-user'')"
proof -
  have g: "isinstance ex_google_callback GoogleOAuthHandler"
    by (simp add: isinstance_def ex_google_callback_def)
  have h: "\<not> isinstance ex_github_callback GoogleOAuthHandler"
    by (simp add: isinstance_def ex_github_callback_def)
  from authenticate_forwards [of ex_google_callback ex_multi "[]"] g
  have "authenticate ex_multi ex_google_callback [] = sub_authenticate (google_authenticator ex_multi) ex_google_callback []"
    by simp
  moreover from authenticate_forwards [of ex_github_callback ex_multi "[]"] h
  obtain p where "p \<noteq> Google"
    "authenticate ex_multi ex_github_callback [] = sub_authenticate (sub_of ex_multi p) ex_github_callback []"
    by blast
  then have "authenticate ex_multi ex_github_callback [] = Inr (Some ''github-user'')"
    by (cases p) (simp_all add: authenticate_def h ex_multi_def init_def ex_github_def ex_gitlab_def)
  ultimately show ?thesis using g h
    by (simp add: ex_multi_def init_def ex_google_def)
qed

text \<open>
  C1 as the specification states it fails. The handler that serves \<open>/gitlab/callback\<close> is
  forwarded to the github sub-authenticator, not to gitlab's, and a handler that matches no
  provider's handler class is forwarded to github as well instead of failing.
\<close>

theorem authenticate_gitlab_counterexample:
  "dict_get (sub_handlers (gitlab_authenticator ex_multi)) ''/oauth_callback'' = Inr OAuthCallbackHandler
   \<and> isinstance ex_gitlab_callback OAuthCallbackHandler
   \<and> authenticate ex_multi ex_gitlab_callback []
       = sub_authenticate (github_authenticator ex_multi) ex_gitlab_callback []
   \<and> authenticate ex_multi ex_gitlab_callback []
       \<noteq> sub_authenticate (gitlab_authenticator ex_multi) ex_gitlab_callback []
   \<and> list_all (\<lambda>c. \<not> isinstance ex_chooser c)
       [GoogleLoginHandler, GoogleOAuthHandler, GitHubLoginHandler, GitLabLoginHandler,
        OAuthCallbackHandler]
   \<and> authenticate ex_multi ex_chooser [] = Inr (Some ''github-user'')"
  by (simp add: authenticate_def isinstance_def dict_get_def ex_multi_def init_def ex_google_def
      ex_github_def ex_gitlab_def ex_gitlab_callback_def ex_chooser_def)

section \<open>Errors of get_callback_url (C6)\<close>

lemma get_callback_url_unmatched:
  assumes "list_all (\<lambda>p. \<not> isinstance h (login_class p)) registry"
  shows "get_callback_url self (Some h) = (synthesize_callback_url h, self)"
  using assms
  by (simp add: registry_def get_callback_url_def google_block_def github_block_def
      gitlab_block_def)

lemma urlsplit_gitlab_callback:
  "urlsplit ''/hub/gitlab/callback?code=c0de&state=5tate''
   = Inr \<lparr>scheme = [], netloc = [], path = ''/hub/gitlab/callback'', query = ''code=c0de&state=5tate'', fragment = []\<rparr>"
  by (simp add: urlsplit_def split_scheme_def split_first_def Let_def)

text \<open>
  C6, as the code has it. Without a handler \<open>get_callback_url\<close> raises (a \<open>ValueError\<close>,
  the specification's \<open>InvalidHandlerError\<close>) and returns no URL. A handler that is an
  instance of no provider's login handler class raises no routing error: the credential
  context is left as it was and the call returns what the synthesis from the handler's own
  request gives, a URL whenever \<open>urlsplit\<close> accepts the request URI.
\<close>

theorem get_callback_url_errors:
  "get_callback_url self None = (Inl ValueError, self)
   \<and> (list_all (\<lambda>p. \<not> isinstance h (login_class p)) registry \<longrightarrow>
        get_callback_url self (Some h) = (synthesize_callback_url h, self)
        \<and> (\<forall>parts. urlsplit (uri (request h)) = Inr parts \<longrightarrow>
             fst (get_callback_url self (Some h))
               = Inr (protocol (request h) @ ''://'' @ host (request h)
                      @ str_replace ''/login'' ''/callback'' (path parts))))"
  using get_callback_url_unmatched [of h self]
  by (simp add: get_callback_url_def synthesize_callback_url_def)

theorem get_callback_url_errors_witness:
  "list_all (\<lambda>p. \<not> isinstance ex_gitlab_callback (login_class p)) registry
   \<and> get_callback_url ex_multi None = (Inl ValueError, ex_multi)
   \<and> get_callback_url ex_multi (Some ex_gitlab_callback)
       = (Inr ''https://hub.example.org/hub/gitlab/callback'', ex_multi)"
proof -
  have h: "list_all (\<lambda>p. \<not> isinstance ex_gitlab_callback (login_class p)) registry"
    by (simp add: registry_def isinstance_def ex_gitlab_callback_def)
  have s: "synthesize_callback_url ex_gitlab_callback
             = Inr ''https://hub.example.org/hub/gitlab/callback''"
    by (simp add: synthesize_callback_url_def ex_gitlab_callback_def ex_request_def
        urlsplit_gitlab_callback)
  from get_callback_url_errors [of ex_multi ex_gitlab_callback] h s
  show ?thesis by simp
qed

text \<open>
  C6 as the specification states it fails: the chooser's own handler matches no provider,
  and \<open>get_callback_url\<close> returns a URL for it.
\<close>

theorem get_callback_url_unrouted_counterexample:
  "list_all (\<lambda>p. \<not> isinstance ex_chooser (login_class p)) registry
   \<and> get_callback_url ex_multi (Some ex_chooser)
       = (Inr ''https://hub.example.org/hub/callback'', ex_multi)"
  by (simp add: registry_def isinstance_def ex_chooser_def ex_request_def get_callback_url_def
      google_block_def github_block_def gitlab_block_def synthesize_callback_url_def
      urlsplit_def split_scheme_def split_first_def Let_def)

section \<open>The configured callback URL (C3)\<close>

text \<open>
  C3 at a GitHub login handler. The github sub-authenticator has a configured callback
  URL, and its credentials are copied, but the URL is not read from the sub-authenticator
  as in the google block: it is read from \<open>self.config.github_authenticator\<close>. With no
  such configuration entry the call raises \<open>AttributeError\<close>; with an entry that differs
  from the sub-authenticator's URL the call returns the entry.
\<close>

theorem get_callback_url_github_reads_config:
  "oauth_callback_url (github_authenticator (ex_multi\<lparr>config := Map.empty\<rparr>))
     = ''https://hub.example.org/hub/github/callback''
   \<and> owned_by ex_github_login GitHub
   \<and> get_callback_url (ex_multi\<lparr>config := Map.empty\<rparr>) (Some ex_github_login)
       = (Inl AttributeError,
          set_oauth_tokens (ex_multi\<lparr>config := Map.empty\<rparr>) (github_authenticator ex_multi))
   \<and> fst (get_callback_url
            (ex_multi\<lparr>config := [''github_authenticator'' \<mapsto> [''oauth_callback_url'' \<mapsto> ''https://elsewhere.example.org/cb'']]\<rparr>)
            (Some ex_github_login))
       = Inr ''https://elsewhere.example.org/cb''"
  by (simp add: owned_by_def registry_def isinstance_def ex_github_login_def ex_request_def
      get_callback_url_def google_block_def github_block_def config_lookup_def truthy_def
      set_oauth_tokens_def ex_multi_def init_def ex_github_def Let_def)

section \<open>Synthesis of the callback URL (C5, C9)\<close>

subsection \<open>Replacing \<open>/login\<close>\<close>

text \<open>
  No occurrence of \<open>/login\<close> overlaps another one, so the occurrences in a string are the
  separators of its one decomposition into segments free of \<open>/login\<close>, and \<open>str_replace\<close>
  exchanges every separator.
\<close>

lemma str_replace_skip:
  "old \<noteq> [] \<Longrightarrow> \<not> prefix old (c # cs) \<Longrightarrow>
   str_replace old new (c # cs) = c # str_replace old new cs"
  by simp

lemma str_replace_hit:
  "old \<noteq> [] \<Longrightarrow> str_replace old new (old @ b) = new @ str_replace old new b"
  by (cases old) simp_all

lemma str_replace_absent:
  "\<not> sublist ''/login'' s \<Longrightarrow> str_replace ''/login'' ''/callback'' s = s"
proof (induction s)
  case Nil
  then show ?case by simp
next
  case (Cons c cs)
  then have np: "\<not> prefix ''/login'' (c # cs)" and "\<not> sublist ''/login'' cs"
    by (simp_all add: sublist_Cons_right)
  with Cons.IH have "str_replace ''/login'' ''/callback'' cs = cs" by simp
  with str_replace_skip [OF _ np, of "''/callback''"] show ?case by simp
qed

lemma login_not_prefix:
  assumes "\<not> sublist ''/login'' a" and "a \<noteq> []"
  shows "\<not> prefix ''/login'' (a @ ''/login'' @ b)"
proof
  assume "prefix ''/login'' (a @ ''/login'' @ b)"
  then have "prefix ''/login'' a \<or> (\<exists>us. ''/login'' = a @ us \<and> prefix us (''/login'' @ b))"
    by (rule iffD1 [OF prefix_append])
  then consider "prefix ''/login'' a"
    | us where "''/login'' = a @ us" "prefix us (''/login'' @ b)"
    by blast
  then show False
  proof cases
    case 1
    then have "sublist ''/login'' a" by (rule prefix_imp_sublist)
    with assms show False by simp
  next
    case 2
    from 2(1) assms(2) have "us \<in> {''login'', ''ogin'', ''gin'', ''in'', ''n'', []}"
      by (auto simp add: Cons_eq_append_conv)
    with 2(2) have "us = []" by auto
    with 2(1) have "a = ''/login''" by simp
    with assms(1) show False by simp
  qed
qed

lemma str_replace_first:
  "\<not> sublist ''/login'' a \<Longrightarrow>
   str_replace ''/login'' ''/callback'' (a @ ''/login'' @ b)
     = a @ ''/callback'' @ str_replace ''/login'' ''/callback'' b"
proof (induction a)
  case Nil
  show ?case using str_replace_hit [of "''/login''" "''/callback''" b] by simp
next
  case (Cons c cs)
  from Cons.prems have np: "\<not> prefix ''/login'' (c # (cs @ ''/login'' @ b))"
    using login_not_prefix [of "c # cs" b] by simp
  from Cons.prems have "\<not> sublist ''/login'' cs"
    by (simp add: sublist_Cons_right)
  with Cons.IH have ih: "str_replace ''/login'' ''/callback'' (cs @ ''/login'' @ b)
     = cs @ ''/callback'' @ str_replace ''/login'' ''/callback'' b" by simp
  have "str_replace ''/login'' ''/callback'' (c # (cs @ ''/login'' @ b))
          = c # str_replace ''/login'' ''/callback'' (cs @ ''/login'' @ b)"
    using np by (intro str_replace_skip) simp_all
  with ih show ?case by (simp del: str_replace.simps)
qed

lemma str_replace_join:
  "list_all (\<lambda>s. \<not> sublist ''/login'' s) segs \<Longrightarrow>
   str_replace ''/login'' ''/callback'' (str_join ''/login'' segs) = str_join ''/callback'' segs"
proof (induction segs rule: induct_list012)
  case 1
  show ?case by simp
next
  case (2 x)
  then show ?case by (simp add: str_replace_absent del: str_replace.simps)
next
  case (3 x y ys)
  then have "str_replace ''/login'' ''/callback'' (str_join ''/login'' (y # ys))
               = str_join ''/callback'' (y # ys)" by simp
  moreover from 3 have "\<not> sublist ''/login'' x" by simp
  ultimately show ?case
    using str_replace_first [of x "str_join ''/login'' (y # ys)"]
    by (simp del: str_replace.simps)
qed

subsection \<open>The path of a request target\<close>

lemma takeWhile_behind_path:
  assumes "behind_path t"
  shows "takeWhile (\<lambda>x. x \<noteq> CHR ''?'') (takeWhile (\<lambda>x. x \<noteq> CHR ''#'') t) = []"
  using assms by (cases t) (auto simp add: behind_path_def)

lemma urlsplit_plain:
  assumes "split_scheme u = ([], u)" and "take 2 u \<noteq> ''//''"
    and "dropWhile (\<lambda>c. of_char c \<le> (32::nat)) u0 = u1"
    and "filter (\<lambda>c. c \<notin> {CHR 0x09, CHR 0x0A, CHR 0x0D}) u1 = u"
  shows "\<exists>parts. urlsplit u0 = Inr parts
          \<and> path parts = takeWhile (\<lambda>x. x \<noteq> CHR ''?'') (takeWhile (\<lambda>x. x \<noteq> CHR ''#'') u)"
proof -
  have tw: "takeWhile (\<lambda>x. x \<noteq> c) s = s" if "c \<notin> set s" for c :: char and s
    using that by (induction s) auto
  show ?thesis
    using assms
    by (auto simp add: urlsplit_def Let_def split_first_def tw split: prod.splits)
qed

lemma urlsplit_origin_form:
  assumes "origin_form p" and "behind_path t"
  shows "\<exists>parts. urlsplit (p @ t) = Inr parts \<and> path parts = p"
proof -
  from assms(1) obtain r where p: "p = CHR ''/'' # r" and r: "take 1 r \<noteq> ''/''"
    and ok: "list_all (\<lambda>c. c \<notin> set [CHR ''?'', CHR ''#'', CHR 0x09, CHR 0x0A, CHR 0x0D]) p"
    by (cases p) (auto simp add: origin_form_def)
  let ?t = "filter (\<lambda>c. c \<notin> {CHR 0x09, CHR 0x0A, CHR 0x0D}) t"
  have bt: "behind_path ?t"
    using assms(2) by (cases t) (auto simp add: behind_path_def)
  have d: "dropWhile (\<lambda>c. of_char c \<le> (32::nat)) (p @ t) = p @ t"
    by (simp add: p)
  have f: "filter (\<lambda>c. c \<notin> {CHR 0x09, CHR 0x0A, CHR 0x0D}) (p @ t) = p @ ?t"
    using ok by (auto simp add: list_all_iff filter_id_conv)
  have s: "split_scheme (p @ ?t) = ([], p @ ?t)"
    by (simp add: split_scheme_def p ascii_alpha_def Let_def)
  have n: "take 2 (p @ ?t) \<noteq> ''//''"
    using r bt by (cases r; cases ?t) (auto simp add: p behind_path_def)
  from urlsplit_plain [OF s n d f] obtain parts where
    u: "urlsplit (p @ t) = Inr parts"
    and pp: "path parts = takeWhile (\<lambda>x. x \<noteq> CHR ''?'') (takeWhile (\<lambda>x. x \<noteq> CHR ''#'') (p @ ?t))"
    by blast
  have "takeWhile (\<lambda>x. x \<noteq> CHR ''#'') (p @ ?t) = p @ takeWhile (\<lambda>x. x \<noteq> CHR ''#'') ?t"
    using ok by (intro takeWhile_append2) (auto simp add: list_all_iff)
  moreover have "takeWhile (\<lambda>x. x \<noteq> CHR ''?'') (p @ takeWhile (\<lambda>x. x \<noteq> CHR ''#'') ?t)
                 = p @ takeWhile (\<lambda>x. x \<noteq> CHR ''?'') (takeWhile (\<lambda>x. x \<noteq> CHR ''#'') ?t)"
    using ok by (intro takeWhile_append2) (auto simp add: list_all_iff)
  ultimately have "path parts = p"
    using pp takeWhile_behind_path [OF bt] by simp
  with u show ?thesis by blast
qed

lemma get_callback_url_synthesizes:
  assumes "no_configured_url self h"
  shows "fst (get_callback_url self (Some h)) = synthesize_callback_url h"
  using assms
  by (simp add: no_configured_url_def get_callback_url_def google_block_def github_block_def
      gitlab_block_def Let_def truthy_def set_oauth_tokens_def)

lemma urlsplit_google_login:
  "urlsplit ''/hub/google/login?next=%2Fhub%2Fhome''
   = Inr \<lparr>scheme = [], netloc = [], path = ''/hub/google/login'',
          query = ''next=%2Fhub%2Fhome'', fragment = []\<rparr>"
  by (simp add: urlsplit_def split_scheme_def split_first_def Let_def)

text \<open>
  C5. For a handler that no block of \<open>get_callback_url\<close> answers with a configured URL
  (its provider has none) and whose request has the path \<open>/hub/google/login\<close>, the call
  returns \<open>scheme://host/hub/google/callback\<close>: scheme, host and hub prefix as in the
  request, the trailing \<open>/login\<close> replaced by \<open>/callback\<close>.
\<close>

theorem synthesized_callback_url_roundtrip:
  assumes "no_configured_url self h"
    and "urlsplit (uri (request h)) = Inr parts"
    and "path parts = ''/hub/google/login''"
  shows "fst (get_callback_url self (Some h))
           = Inr (protocol (request h) @ ''://'' @ host (request h) @ ''/hub/google/callback'')"
  using assms get_callback_url_synthesizes [of self h]
  by (simp add: synthesize_callback_url_def)

theorem synthesized_callback_url_roundtrip_witness:
  "no_configured_url ex_unconfigured ex_google_login
   \<and> urlsplit (uri (request ex_google_login))
       = Inr \<lparr>scheme = [], netloc = [], path = ''/hub/google/login'',
              query = ''next=%2Fhub%2Fhome'', fragment = []\<rparr>
   \<and> fst (get_callback_url ex_unconfigured (Some ex_google_login))
       = Inr ''https://hub.example.org/hub/google/callback''"
proof -
  have n: "no_configured_url ex_unconfigured ex_google_login"
    by (simp add: no_configured_url_def isinstance_def ex_google_login_def ex_unconfigured_def)
  have u: "urlsplit (uri (request ex_google_login))
       = Inr \<lparr>scheme = [], netloc = [], path = ''/hub/google/login'',
              query = ''next=%2Fhub%2Fhome'', fragment = []\<rparr>"
    by (simp add: ex_google_login_def ex_request_def urlsplit_google_login)
  from synthesized_callback_url_roundtrip [OF n u] n u show ?thesis
    by (simp add: ex_google_login_def ex_request_def)
qed

text \<open>
  C9. When \<open>get_callback_url\<close> synthesizes the URL, the result is the request's protocol
  and host followed by the path component of the request URI with \<open>/login\<close> replaced by
  \<open>/callback\<close>. For a request target in origin form, whatever follows the path (query or
  fragment) has no influence, and every \<open>/login\<close> of the path is replaced, not only the
  last: a path that is the segments \<open>segs\<close> joined by \<open>/login\<close> becomes the same segments
  joined by \<open>/callback\<close>.
\<close>

theorem synthesized_callback_url_from_path:
  assumes "no_configured_url self h"
  shows "(\<forall>parts. urlsplit (uri (request h)) = Inr parts \<longrightarrow>
            fst (get_callback_url self (Some h))
              = Inr (protocol (request h) @ ''://'' @ host (request h)
                     @ str_replace ''/login'' ''/callback'' (path parts)))
       \<and> (\<forall>segs t. uri (request h) = str_join ''/login'' segs @ t
                  \<and> origin_form (str_join ''/login'' segs) \<and> behind_path t
                  \<and> list_all (\<lambda>s. \<not> sublist ''/login'' s) segs \<longrightarrow>
            fst (get_callback_url self (Some h))
              = Inr (protocol (request h) @ ''://'' @ host (request h)
                     @ str_join ''/callback'' segs))"
proof (intro conjI allI impI)
  fix parts
  assume "urlsplit (uri (request h)) = Inr parts"
  with get_callback_url_synthesizes [OF assms]
  show "fst (get_callback_url self (Some h))
          = Inr (protocol (request h) @ ''://'' @ host (request h)
                 @ str_replace ''/login'' ''/callback'' (path parts))"
    by (simp add: synthesize_callback_url_def)
next
  fix segs t
  assume a: "uri (request h) = str_join ''/login'' segs @ t
             \<and> origin_form (str_join ''/login'' segs) \<and> behind_path t
             \<and> list_all (\<lambda>s. \<not> sublist ''/login'' s) segs"
  then have o: "origin_form (str_join ''/login'' segs)" and b: "behind_path t"
    and l: "list_all (\<lambda>s. \<not> sublist ''/login'' s) segs"
    by simp_all
  from urlsplit_origin_form [OF o b] a obtain parts where
    "urlsplit (uri (request h)) = Inr parts" "path parts = str_join ''/login'' segs"
    by auto
  then have "synthesize_callback_url h
      = Inr (protocol (request h) @ ''://'' @ host (request h)
             @ str_replace ''/login'' ''/callback'' (str_join ''/login'' segs))"
    by (simp add: synthesize_callback_url_def)
  with str_replace_join [OF l] get_callback_url_synthesizes [OF assms]
  show "fst (get_callback_url self (Some h))
          = Inr (protocol (request h) @ ''://'' @ host (request h)
                 @ str_join ''/callback'' segs)"
    by simp
qed

theorem synthesized_callback_url_from_path_witness:
  "no_configured_url ex_unconfigured
     \<lparr>mro = [GoogleLoginHandler, OAuthLoginHandler],
      request = ex_request ''/login/hub/google/login?next=%2Flogin''\<rparr>
   \<and> ''/login/hub/google/login?next=%2Flogin''
       = str_join ''/login'' [[], ''/hub/google'', []] @ ''?next=%2Flogin''
   \<and> origin_form (str_join ''/login'' [[], ''/hub/google'', []])
   \<and> behind_path ''?next=%2Flogin''
   \<and> list_all (\<lambda>s. \<not> sublist ''/login'' s) [[], ''/hub/google'', []]
   \<and> fst (get_callback_url ex_unconfigured
            (Some \<lparr>mro = [GoogleLoginHandler, OAuthLoginHandler],
                   request = ex_request ''/login/hub/google/login?next=%2Flogin''\<rparr>))
       = Inr ''https://hub.example.org/callback/hub/google/callback''"
proof -
  let ?h = "\<lparr>mro = [GoogleLoginHandler, OAuthLoginHandler],
      request = ex_request ''/login/hub/google/login?next=%2Flogin''\<rparr>"
  let ?segs = "[[], ''/hub/google'', []]"
  have n: "no_configured_url ex_unconfigured ?h"
    by (simp add: no_configured_url_def isinstance_def ex_unconfigured_def)
  have u: "uri (request ?h) = str_join ''/login'' ?segs @ ''?next=%2Flogin''"
    by (simp add: ex_request_def)
  have o: "origin_form (str_join ''/login'' ?segs)"
    by (simp add: origin_form_def)
  have b: "behind_path ''?next=%2Flogin''"
    by (simp add: behind_path_def)
  have l: "list_all (\<lambda>s. \<not> sublist ''/login'' s) ?segs"
    by (simp add: sublist_Cons_right)
  from synthesized_callback_url_from_path [OF n] u o b l
  have "fst (get_callback_url ex_unconfigured (Some ?h))
          = Inr (protocol (request ?h) @ ''://'' @ host (request ?h)
                 @ str_join ''/callback'' ?segs)"
    by blast
  with n o b l show ?thesis
    by (simp add: ex_request_def)
qed


end
